theory Spec2Isabelle
  imports Complex_Main
begin

section \<open>The recipe importer: cells, strings and numbers\<close>

text \<open>
  The development follows \<^verbatim>\<open>scripts/import-bens-farmhouse-recipes.py\<close>: the functions
  \<^verbatim>\<open>generate_recipe_id\<close>, \<^verbatim>\<open>parse_excel\<close> and \<^verbatim>\<open>parse_recipe\<close>.

  A worksheet cell holds nothing, a text or a number. A finite Python float is modelled
  by its exact value, a rational: reading a number, dividing, adding and \<^verbatim>\<open>round\<close> give the
  nearest binary64 value, a tie going to the even one, and \<^verbatim>\<open>inf\<close> beyond the largest
  one. The floats \<^verbatim>\<open>inf\<close> and \<^verbatim>\<open>nan\<close> have the explicit outcomes given below.
  A date cell behaves as the text of its rendering (it is truthy, it is no number, and
  the handlers of the script catch \<^verbatim>\<open>TypeError\<close> wherever they catch \<^verbatim>\<open>ValueError\<close>).
  A string is a list of 8-bit characters, read as code points below 256.
\<close>

datatype cell = Empty | Text string | Number rat

text \<open>
  What a run can stop with. The first three are the Python exceptions the script can
  raise while parsing. \<open>NonFinite\<close> is no exception: it marks a run that would go on
  with the float \<^verbatim>\<open>inf\<close> or \<^verbatim>\<open>nan\<close> as a value, which a rational cannot hold.
\<close>

datatype error = ValueError | TypeError | OverflowError | NonFinite

datatype pyfloat = Finite rat | Infinite | NaN

subsection \<open>Strings\<close>

definition isspace :: "char \<Rightarrow> bool" where
  "isspace c = (let n = (of_char c :: nat) in
     (9 \<le> n \<and> n \<le> 13) \<or> (28 \<le> n \<and> n \<le> 32) \<or> n = 133 \<or> n = 160)"

definition strip :: "string \<Rightarrow> string" where
  "strip s = rev (dropWhile isspace (rev (dropWhile isspace s)))"

definition isdigit :: "char \<Rightarrow> bool" where
  "isdigit c = (let n = (of_char c :: nat) in 48 \<le> n \<and> n \<le> 57)"

definition digit_val :: "char \<Rightarrow> nat" where
  "digit_val c = (of_char c :: nat) - 48"

definition lower :: "char \<Rightarrow> char" where
  "lower c = (let n = (of_char c :: nat) in
     if 65 \<le> n \<and> n \<le> 90 then char_of (n + 32) else c)"

text \<open>Python's \<^verbatim>\<open>p in s\<close> on strings.\<close>

fun starts_with :: "string \<Rightarrow> string \<Rightarrow> bool" where
  "starts_with [] s = True"
| "starts_with (p # ps) [] = False"
| "starts_with (p # ps) (c # cs) = (p = c \<and> starts_with ps cs)"

fun contains :: "string \<Rightarrow> string \<Rightarrow> bool" where
  "contains p [] = (p = [])"
| "contains p (c # cs) = (starts_with p (c # cs) \<or> contains p cs)"

text \<open>Python's \<^verbatim>\<open>str\<close> of an integer.\<close>

function digits_of_int :: "int \<Rightarrow> string \<Rightarrow> string" where
  "digits_of_int n acc =
     (if n < 10 then char_of (48 + n) # acc
      else digits_of_int (n div 10) (char_of (48 + n mod 10) # acc))"
  by pat_completeness auto
termination
  by (relation "measure (\<lambda>(n, acc). nat n)") auto

declare digits_of_int.simps [simp del]

definition str_int :: "int \<Rightarrow> string" where
  "str_int i = (if i < 0 then CHR ''-'' # digits_of_int (- i) [] else digits_of_int i [])"

text \<open>
  The fractional digits of a number in \<open>[0, 1)\<close>, at most \<open>n\<close> of them. Python prints
  a float by the shortest decimal that reads back as the same float, and switches to
  exponent notation below \<open>0.0001\<close> and from \<open>10^16\<close> on; the two agree on the
  numbers in between whose decimal expansion ends within the digits a float holds.
\<close>

fun frac_digits :: "nat \<Rightarrow> rat \<Rightarrow> string" where
  "frac_digits 0 r = []"
| "frac_digits (Suc n) r =
     (if r = 0 then []
      else char_of (48 + \<lfloor>r * 10\<rfloor>) # frac_digits n (r * 10 - of_int \<lfloor>r * 10\<rfloor>))"

text \<open>
  The worksheet library hands a whole number out as an integer, which prints as its
  digits, and any other number as a float.
\<close>

definition str_num :: "rat \<Rightarrow> string" where
  "str_num q =
     (if of_int \<lfloor>q\<rfloor> = q then str_int \<lfloor>q\<rfloor>
      else (if q < 0 then ''-'' else '''') @ str_int \<lfloor>\<bar>q\<bar>\<rfloor> @ ''.'' @
           frac_digits 16 (\<bar>q\<bar> - of_int \<lfloor>\<bar>q\<bar>\<rfloor>))"

fun py_str :: "cell \<Rightarrow> string" where
  "py_str Empty = ''None''"
| "py_str (Text s) = s"
| "py_str (Number q) = str_num q"

text \<open>Python's truth value of a cell: \<^verbatim>\<open>None\<close>, the empty text and zero are false.\<close>

fun truthy :: "cell \<Rightarrow> bool" where
  "truthy Empty = False"
| "truthy (Text s) = (s \<noteq> [])"
| "truthy (Number q) = (q \<noteq> 0)"

subsection \<open>Binary64\<close>

text \<open>The nearest integer, a tie going to the even one.\<close>

definition round_half_even :: "rat \<Rightarrow> int" where
  "round_half_even x =
     (let f = \<lfloor>x\<rfloor>; d = x - of_int f
      in if d < 1 / 2 then f else if d > 1 / 2 then f + 1
         else if even f then f else f + 1)"

function bit_length :: "int \<Rightarrow> int" where
  "bit_length n = (if n \<le> 0 then 0 else 1 + bit_length (n div 2))"
  by pat_completeness auto
termination
  by (relation "measure nat") auto

declare bit_length.simps [simp del]

definition pow2 :: "int \<Rightarrow> rat" where
  "pow2 e = (if e \<ge> 0 then 2 ^ nat e else 1 / 2 ^ nat (- e))"

text \<open>For \<open>a > 0\<close>, the \<open>e\<close> with \<open>2^e \<le> a < 2^(e + 1)\<close>.\<close>

definition binary_exponent :: "rat \<Rightarrow> int" where
  "binary_exponent a =
     (let (n, d) = quotient_of a; e = bit_length n - bit_length d
      in if pow2 e \<le> a then e else e - 1)"

text \<open>
  The float nearest to a rational, as IEEE 754 rounds to nearest: 53 significant bits,
  a tie to the even significand, the exponent not below \<open>-1022\<close> (so that the small
  numbers are spaced \<open>2^(-1074)\<close> apart and the smallest round to zero), and \<^verbatim>\<open>inf\<close> from
  \<open>2^1024\<close> on.
\<close>

definition double_of_rat :: "rat \<Rightarrow> pyfloat" where
  "double_of_rat q =
     (if q = 0 then Finite 0
      else
        (let a = \<bar>q\<bar>;
             e = max (binary_exponent a) (- 1022);
             ulp = pow2 (e - 52);
             m = round_half_even (a / ulp)
         in if e > 1023 \<or> (e = 1023 \<and> m \<ge> 2 ^ 53) then Infinite
            else Finite ((if q < 0 then - 1 else 1) * of_int m * ulp)))"

subsection \<open>Reading a float\<close>

text \<open>
  Python's \<^verbatim>\<open>float\<close> on a string: surrounding whitespace is dropped, then an optional
  sign, then \<^verbatim>\<open>inf\<close>, \<^verbatim>\<open>infinity\<close> or \<^verbatim>\<open>nan\<close> in any case, or a decimal number
  \<^verbatim>\<open>[digits] . digits | digits [.]\<close> with an optional exponent; single underscores may
  separate digits. The result is the float nearest to the decimal number.
\<close>

fun span_digits :: "string \<Rightarrow> bool \<Rightarrow> string \<times> string" where
  "span_digits [] after_digit = ([], [])"
| "span_digits (c # cs) after_digit =
     (if isdigit c then (let (ds, r) = span_digits cs True in (c # ds, r))
      else if after_digit \<and> c = CHR ''_'' \<and> cs \<noteq> [] \<and> isdigit (hd cs)
        then span_digits cs False
      else ([], c # cs))"

definition nat_of_digits :: "string \<Rightarrow> nat" where
  "nat_of_digits ds = foldl (\<lambda>n c. 10 * n + digit_val c) 0 ds"

definition pow10 :: "int \<Rightarrow> rat" where
  "pow10 e = (if e \<ge> 0 then 10 ^ nat e else 1 / 10 ^ nat (- e))"

definition parse_exponent :: "string \<Rightarrow> int option" where
  "parse_exponent s =
     (case s of
        [] \<Rightarrow> Some 0
      | c # cs \<Rightarrow>
          if c = CHR ''e'' \<or> c = CHR ''E'' then
            (let (neg, body) =
                   (case cs of
                      [] \<Rightarrow> (False, [])
                    | d # ds \<Rightarrow> if d = CHR ''-'' then (True, ds)
                               else if d = CHR ''+'' then (False, ds) else (False, cs));
                 (es, rest) = span_digits body False
             in if es = [] \<or> rest \<noteq> [] then None
                else Some (if neg then - int (nat_of_digits es) else int (nat_of_digits es)))
          else None)"

definition parse_decimal :: "string \<Rightarrow> rat option" where
  "parse_decimal s =
     (let (ip, r1) = span_digits s False;
          (fp, r2) = (case r1 of
                        [] \<Rightarrow> ([], [])
                      | c # cs \<Rightarrow> if c = CHR ''.'' then span_digits cs False else ([], r1))
      in if ip = [] \<and> fp = [] then None
         else (case parse_exponent r2 of
                 None \<Rightarrow> None
               | Some e \<Rightarrow>
                   Some (of_nat (nat_of_digits (ip @ fp)) * pow10 (e - int (length fp)))))"

definition float_of_string :: "string \<Rightarrow> error + pyfloat" where
  "float_of_string s =
     (let t = strip s;
          (neg, body) =
            (case t of
               [] \<Rightarrow> (False, [])
             | c # cs \<Rightarrow> if c = CHR ''-'' then (True, cs)
                        else if c = CHR ''+'' then (False, cs) else (False, t));
          word = map lower body
      in if word = ''inf'' \<or> word = ''infinity'' then Inr Infinite
         else if word = ''nan'' then Inr NaN
         else (case parse_decimal body of
                 None \<Rightarrow> Inl ValueError
               | Some q \<Rightarrow> Inr (double_of_rat (if neg then - q else q))))"

text \<open>
  Python's \<^verbatim>\<open>float\<close> on a cell value. A number cell holds a float, which \<^verbatim>\<open>float\<close> returns
  as it is, or an integer, which it rounds to the nearest float; an integer too large
  for any float raises \<^verbatim>\<open>OverflowError\<close>.
\<close>

fun py_float :: "cell \<Rightarrow> error + pyfloat" where
  "py_float Empty = Inl TypeError"
| "py_float (Text s) = float_of_string s"
| "py_float (Number q) =
     (case double_of_rat q of Infinite \<Rightarrow> Inl OverflowError | f \<Rightarrow> Inr f)"

text \<open>Python's \<^verbatim>\<open>int\<close> on a float: truncation towards zero.\<close>

fun py_int :: "pyfloat \<Rightarrow> error + int" where
  "py_int (Finite q) = Inr (if q < 0 then - \<lfloor>- q\<rfloor> else \<lfloor>q\<rfloor>)"
| "py_int Infinite = Inl OverflowError"
| "py_int NaN = Inl ValueError"

text \<open>A float kept as a value: the model holds the finite ones only.\<close>

fun as_value :: "pyfloat \<Rightarrow> error + rat" where
  "as_value (Finite q) = Inr q"
| "as_value Infinite = Inl NonFinite"
| "as_value NaN = Inl NonFinite"

subsection \<open>The name filters of \<^verbatim>\<open>parse_excel\<close>\<close>

definition not_a_name :: "string \<Rightarrow> bool" where
  "not_a_name val =
     (val = ''BEN'' @ [char_of (39::nat)] @ ''S FARMHOUSE''
      \<or> val = ''Ingredients'' \<or> val = ''S.No'' \<or> val = [])"

definition looks_like_date :: "string \<Rightarrow> bool" where
  "looks_like_date val =
     (contains ''20'' val \<and> (contains ''-'' val \<or> contains ''/'' val) \<and> length val < 25)"

section \<open>The worksheet\<close>

text \<open>
  A worksheet is the list of its rows, each the list of its cells; rows and columns count
  from 1. Reading a cell outside the stored ones gives \<^verbatim>\<open>None\<close>, as the worksheet
  library does. The script never reads row or column 0.
\<close>

type_synonym sheet = "cell list list"

definition max_row :: "sheet \<Rightarrow> nat" where
  "max_row ws = max 1 (length ws)"

definition cell_value :: "sheet \<Rightarrow> nat \<Rightarrow> nat \<Rightarrow> cell" where
  "cell_value ws row column =
     (if 1 \<le> row \<and> row \<le> length ws \<and> 1 \<le> column \<and> column \<le> length (ws ! (row - 1))
      then ws ! (row - 1) ! (column - 1) else Empty)"

text \<open>Python's \<^verbatim>\<open>range(a, b, -1)\<close>: \<open>a, a - 1, \<dots>, b + 1\<close>.\<close>

definition range_down :: "nat \<Rightarrow> nat \<Rightarrow> nat list" where
  "range_down a b = rev [Suc b..<Suc a]"

section \<open>\<^verbatim>\<open>parse_excel\<close>, pass 1: the marker rows\<close>

definition is_marker :: "sheet \<Rightarrow> nat \<Rightarrow> bool" where
  "is_marker ws row =
     (let b_val = cell_value ws row 2
      in truthy b_val \<and> contains ''Recipe ID'' (py_str b_val))"

definition recipe_id_rows :: "sheet \<Rightarrow> nat list" where
  "recipe_id_rows ws = filter (is_marker ws) [1..<Suc (max_row ws)]"

section \<open>\<^verbatim>\<open>parse_excel\<close>, pass 2: name and category\<close>

text \<open>
  The rows both loops walk: \<^verbatim>\<open>range(row - 1, max(row - 5, 0), -1)\<close>, the four rows above
  \<open>row\<close>, nearest first, cut at the top of the worksheet. The subtraction on \<open>nat\<close>
  stops at 0, as \<^verbatim>\<open>max(..., 0)\<close> does.
\<close>

definition rows_above :: "nat \<Rightarrow> nat list" where
  "rows_above row = range_down (row - 1) (row - 5)"

text \<open>
  The loop of lines 62 to 74 over the rows above the marker: the value and the row of
  the name, or \<open>None\<close> when the loop ends without one.
\<close>

fun find_name :: "sheet \<Rightarrow> nat list \<Rightarrow> (string \<times> nat) option" where
  "find_name ws [] = None"
| "find_name ws (r # rs) =
     (let a_val = cell_value ws r 1; b_val = cell_value ws r 2
      in if truthy a_val \<and> \<not> truthy b_val then
           (let val = strip (py_str a_val)
            in if not_a_name val then find_name ws rs
               else if looks_like_date val then find_name ws rs
               else Some (val, r))
         else find_name ws rs)"

text \<open>
  The loop of lines 82 to 119 over the rows above the name: \<open>Some val\<close> when it assigns
  \<^verbatim>\<open>current_category = val\<close>, \<open>None\<close> when it leaves the variable as it is.
\<close>

fun find_category :: "sheet \<Rightarrow> nat list \<Rightarrow> nat \<Rightarrow> nat list \<Rightarrow> string option" where
  "find_category ws rid_rows idx [] = None"
| "find_category ws rid_rows idx (r # rs) =
     (let a_val = cell_value ws r 1; b_val = cell_value ws r 2
      in if a_val = Empty \<and> b_val = Empty then find_category ws rid_rows idx rs
         else if truthy a_val \<and> \<not> truthy b_val then
           (let val = strip (py_str a_val)
            in if not_a_name val then None
               else if looks_like_date val then None
               else (case float_of_string val of
                       Inr f \<Rightarrow> None
                     | Inl e \<Rightarrow>
                         if idx > 0 then
                           (if r > rid_rows ! (idx - 1) then Some val else None)
                         else Some val))
         else None)"

section \<open>\<^verbatim>\<open>generate_recipe_id\<close>\<close>

text \<open>
  The clock and the random generator are an input of the model: \<open>gen k\<close> is the clock
  reading in milliseconds and the nine random characters of the \<open>k\<close>-th call. The
  callers count the calls.
\<close>

type_synonym idgen = "nat \<Rightarrow> int \<times> string"

definition generate_recipe_id :: "idgen \<Rightarrow> nat \<Rightarrow> string" where
  "generate_recipe_id gen k = ''recipe_'' @ str_int (fst (gen k)) @ ''_'' @ snd (gen k)"

section \<open>\<^verbatim>\<open>parse_recipe\<close>\<close>

subsection \<open>Metadata\<close>

text \<open>The local variables that the metadata loop of lines 140 to 184 assigns.\<close>

record metadata =
  recipe_id_source :: "string option"
  total_yield :: "rat option"
  total_calories :: "rat option"
  per_serving_weight :: "rat option"
  description :: "string option"
  prep_time :: "int option"

definition no_metadata :: metadata where
  "no_metadata = \<lparr>recipe_id_source = None, total_yield = None, total_calories = None,
     per_serving_weight = None, description = None, prep_time = None\<rparr>"

text \<open>The handlers of the script: \<^verbatim>\<open>except (ValueError, TypeError)\<close>.\<close>

definition caught :: "error \<Rightarrow> bool" where
  "caught e = (e = ValueError \<or> e = TypeError)"

text \<open>\<^verbatim>\<open>float(v)\<close> kept as a value.\<close>

definition float_value :: "cell \<Rightarrow> error + rat" where
  "float_value v = (case py_float v of Inl e \<Rightarrow> Inl e | Inr f \<Rightarrow> as_value f)"

text \<open>Lines 144 to 159: the label in column B and its value in column C.\<close>

definition read_labelled :: "sheet \<Rightarrow> nat \<Rightarrow> metadata \<Rightarrow> error + metadata" where
  "read_labelled ws row m =
     (let b_val = cell_value ws row 2; c_val = cell_value ws row 3
      in if truthy b_val then
           (let b_str = strip (py_str b_val)
            in if contains ''Recipe ID'' b_str then
                 Inr (m\<lparr>recipe_id_source :=
                          (if truthy c_val then Some (strip (py_str c_val)) else None)\<rparr>)
               else if contains ''Total Yield'' b_str then
                 (if truthy c_val then
                    (case float_value c_val of
                       Inl e \<Rightarrow> if caught e then Inr (m\<lparr>total_yield := None\<rparr>) else Inl e
                     | Inr q \<Rightarrow> Inr (m\<lparr>total_yield := Some q\<rparr>))
                  else Inr (m\<lparr>total_yield := None\<rparr>))
               else if contains ''Description'' b_str then
                 Inr (m\<lparr>description :=
                          Some (if truthy c_val then strip (py_str c_val) else [])\<rparr>)
               else if contains ''Preparation Time'' b_str then
                 (if truthy c_val then
                    (case (case py_float c_val of Inl e \<Rightarrow> Inl e | Inr f \<Rightarrow> py_int f) of
                       Inl e \<Rightarrow> if caught e then Inr (m\<lparr>prep_time := None\<rparr>) else Inl e
                     | Inr i \<Rightarrow> Inr (m\<lparr>prep_time := Some i\<rparr>))
                  else Inr (m\<lparr>prep_time := None\<rparr>))
               else Inr m)
         else Inr m)"

text \<open>Lines 163 to 179: one of the columns F and G, with its value in the next column.\<close>

definition read_side :: "sheet \<Rightarrow> nat \<Rightarrow> nat \<Rightarrow> metadata \<Rightarrow> error + metadata" where
  "read_side ws row col m =
     (let h = cell_value ws row col
      in if truthy h then
           (let h_str = strip (py_str h)
            in if contains ''Calories'' h_str then
                 (let v = cell_value ws row (col + 1)
                  in if v \<noteq> Empty then
                       (case float_value v of
                          Inl e \<Rightarrow> if caught e then Inr m else Inl e
                        | Inr q \<Rightarrow> Inr (m\<lparr>total_calories := Some q\<rparr>))
                     else Inr m)
               else if contains ''Per Serving Weight'' h_str then
                 (let v = cell_value ws row (col + 1)
                  in if v \<noteq> Empty then
                       (case float_value v of
                          Inl e \<Rightarrow> if caught e then Inr m else Inl e
                        | Inr q \<Rightarrow> Inr (m\<lparr>per_serving_weight := Some q\<rparr>))
                     else Inr m)
               else Inr m)
         else Inr m)"

definition is_ingredients_label :: "cell \<Rightarrow> bool" where
  "is_ingredients_label a_val = (truthy a_val \<and> strip (py_str a_val) = ''Ingredients'')"

fun parse_metadata :: "sheet \<Rightarrow> nat list \<Rightarrow> metadata \<Rightarrow> error + metadata" where
  "parse_metadata ws [] m = Inr m"
| "parse_metadata ws (row # rows) m =
     (case read_labelled ws row m of
        Inl e \<Rightarrow> Inl e
      | Inr m1 \<Rightarrow>
          (case read_side ws row 6 m1 of
             Inl e \<Rightarrow> Inl e
           | Inr m2 \<Rightarrow>
               (case read_side ws row 7 m2 of
                  Inl e \<Rightarrow> Inl e
                | Inr m3 \<Rightarrow>
                    if is_ingredients_label (cell_value ws row 1) then Inr m3
                    else parse_metadata ws rows m3)))"

subsection \<open>The start of the ingredient rows\<close>

text \<open>Lines 187 to 198.\<close>

fun find_ingredients_start :: "sheet \<Rightarrow> nat list \<Rightarrow> nat option" where
  "find_ingredients_start ws [] = None"
| "find_ingredients_start ws (row # rows) =
     (if is_ingredients_label (cell_value ws row 1) then
        (let next_row = row + 1; next_a = cell_value ws next_row 1
         in if truthy next_a \<and> contains ''S.No'' (py_str next_a) then Some (next_row + 1)
            else Some next_row)
      else find_ingredients_start ws rows)"

subsection \<open>The ingredient rows\<close>

text \<open>\<^verbatim>\<open>str(v).strip() if v else d\<close> and \<^verbatim>\<open>float(v) if v else d\<close>.\<close>

definition str_or :: "cell \<Rightarrow> string \<Rightarrow> string" where
  "str_or v d = (if truthy v then strip (py_str v) else d)"

definition float_or :: "cell \<Rightarrow> rat \<Rightarrow> error + rat" where
  "float_or v d = (if truthy v then float_value v else Inr d)"

text \<open>Lines 224 to 228: the quantity kept for the row.\<close>

definition qty_val :: "cell \<Rightarrow> cell \<Rightarrow> error + rat" where
  "qty_val yield_qty quantity =
     (case (if truthy yield_qty then float_value yield_qty
            else if truthy quantity then float_value quantity else Inr 0) of
        Inl e \<Rightarrow> if caught e then Inr 0 else Inl e
      | Inr q \<Rightarrow> Inr q)"

text \<open>
  A line item, with the fields of the dictionary of lines 230 to 248 that are read from
  the worksheet. The fields left out hold the same literal in every item
  (\<^verbatim>\<open>allergens\<close>, \<^verbatim>\<open>is_starred\<close>, \<^verbatim>\<open>nutrients\<close> and the like).
\<close>

record ingredient =
  name :: string
  unit :: string
  source :: string
  quantity :: rat
  cost :: rat
  yield_percent :: rat
  quantity_in_grams :: rat
  yield_quantity_in_grams :: rat
  ingredient_id :: string
  entity_ingredient_id :: string
  sub_recipe_name :: "string option"

text \<open>Lines 215 to 251: the item of a numbered row; \<open>k\<close> counts the identifiers drawn.\<close>

definition parse_ingredient_row :: "sheet \<Rightarrow> idgen \<Rightarrow> nat \<Rightarrow> nat \<Rightarrow> error + ingredient" where
  "parse_ingredient_row ws gen row k =
     (let ingredient_id_cell = cell_value ws row 2;
          ingredient_name = cell_value ws row 3;
          ingredient_type = cell_value ws row 4;
          sub_recipe = cell_value ws row 5;
          quantity_cell = cell_value ws row 6;
          yield_pct = cell_value ws row 7;
          yield_qty = cell_value ws row 8;
          cost_cell = cell_value ws row 9
      in case qty_val yield_qty quantity_cell of
           Inl e \<Rightarrow> Inl e
         | Inr q \<Rightarrow>
             (case float_or cost_cell 0 of
                Inl e \<Rightarrow> Inl e
              | Inr c \<Rightarrow>
                  (case float_or yield_pct 100 of
                     Inl e \<Rightarrow> Inl e
                   | Inr y \<Rightarrow>
                       Inr \<lparr>name = str_or ingredient_name [],
                            unit = ''G'',
                            source = str_or ingredient_type ''Ingredient'',
                            quantity = q,
                            cost = c,
                            yield_percent = y,
                            quantity_in_grams = q,
                            yield_quantity_in_grams = q,
                            ingredient_id = str_or ingredient_id_cell [],
                            entity_ingredient_id = ''imported_'' @ generate_recipe_id gen k,
                            sub_recipe_name =
                              (if truthy sub_recipe then Some (strip (py_str sub_recipe))
                               else None)\<rparr>)))"

text \<open>Line 211: \<^verbatim>\<open>int(float(str(a_val)))\<close>.\<close>

definition ordinal :: "cell \<Rightarrow> error + int" where
  "ordinal a_val =
     (case float_of_string (py_str a_val) of Inl e \<Rightarrow> Inl e | Inr f \<Rightarrow> py_int f)"

text \<open>
  The loop of lines 206 to 261 from \<open>row\<close> on. Each item is paired with the row it was
  read from, so that the place of an item in the worksheet can be stated; the record keeps
  the items alone.
\<close>

function parse_ingredients ::
  "sheet \<Rightarrow> idgen \<Rightarrow> nat \<Rightarrow> nat \<Rightarrow> error + ((nat \<times> ingredient) list \<times> nat)" where
  "parse_ingredients ws gen row k =
     (if row \<le> max_row ws then
        (let a_val = cell_value ws row 1
         in if a_val \<noteq> Empty then
              (case ordinal a_val of
                 Inl e \<Rightarrow> if caught e then Inr ([], k) else Inl e
               | Inr n \<Rightarrow>
                   (case parse_ingredient_row ws gen row k of
                      Inl e \<Rightarrow> Inl e
                    | Inr ing \<Rightarrow>
                        (case parse_ingredients ws gen (row + 1) (k + 1) of
                           Inl e \<Rightarrow> Inl e
                         | Inr (items, k') \<Rightarrow> Inr ((row, ing) # items, k'))))
            else
              (let b_val = cell_value ws row 2; c_val = cell_value ws row 3
               in if \<not> truthy b_val \<and> \<not> truthy c_val then Inr ([], k)
                  else parse_ingredients ws gen (row + 1) k))
      else Inr ([], k))"
  by pat_completeness auto
termination
  by (relation "measure (\<lambda>(ws, gen, row, k). Suc (max_row ws) - row)") auto

declare parse_ingredients.simps [simp del]

subsection \<open>The record\<close>

text \<open>
  The dictionary of lines 270 to 308, flattened: \<^verbatim>\<open>serving\<close> gives \<open>scale_factor\<close>,
  \<open>total_yield_grams\<close>, \<open>serving_size_grams\<close> and \<open>total_cooked_weight_grams\<close>,
  \<^verbatim>\<open>nutrition\<close> gives \<open>calories\<close> and its own copies of yield and serving size. The
  fields left out hold the same literal in every record.
\<close>

record recipe =
  recipe_id :: string
  recipe_name :: string
  category :: string
  status :: string
  recipe_description :: string
  preparation_time_minutes :: "int option"
  owner_email :: string
  scale_factor :: rat
  total_yield_grams :: rat
  serving_size_grams :: rat
  total_cooked_weight_grams :: rat
  calories :: rat
  nutrition_total_yield_grams :: rat
  nutrition_serving_size_grams :: rat
  ingredients :: "ingredient list"
  source_recipe_id :: "string option"

definition OWNER_EMAIL :: string where
  "OWNER_EMAIL = ''meerim@bensfarmhouse.com''"

text \<open>
  Python's \<^verbatim>\<open>round(x, 2)\<close> on a float: the exact value of \<open>x\<close> is rounded to the nearest
  hundredth, a tie going to the even one, and the float nearest to that decimal number is
  returned; \<^verbatim>\<open>OverflowError\<close> is raised if there is none.
\<close>

definition round2 :: "rat \<Rightarrow> error + rat" where
  "round2 x =
     (case double_of_rat (of_int (round_half_even (x * 100)) / 100) of
        Finite y \<Rightarrow> Inr y
      | Infinite \<Rightarrow> Inl OverflowError
      | NaN \<Rightarrow> Inl OverflowError)"

text \<open>Float addition and division, the result kept as a value.\<close>

definition float_add :: "rat \<Rightarrow> rat \<Rightarrow> error + rat" where
  "float_add a b = as_value (double_of_rat (a + b))"

definition float_div :: "rat \<Rightarrow> rat \<Rightarrow> error + rat" where
  "float_div a b = as_value (double_of_rat (a / b))"

text \<open>
  \<^verbatim>\<open>sum(...)\<close> of line 265: the quantities are added from left to right, starting from 0,
  each addition rounded. (From Python 3.12 on \<^verbatim>\<open>sum\<close> also carries a compensation term
  for the rounding errors, which this function does not follow.)
\<close>

fun float_sum :: "rat \<Rightarrow> rat list \<Rightarrow> error + rat" where
  "float_sum acc [] = Inr acc"
| "float_sum acc (x # xs) =
     (case float_add acc x of Inl e \<Rightarrow> Inl e | Inr s \<Rightarrow> float_sum s xs)"

text \<open>Lines 264 to 268.\<close>

definition serving_size_of :: "rat option \<Rightarrow> rat" where
  "serving_size_of per_serving =
     (case per_serving of None \<Rightarrow> 100 | Some w \<Rightarrow> if w \<noteq> 0 then w else 100)"

definition total_yield_of :: "rat option \<Rightarrow> ingredient list \<Rightarrow> error + rat" where
  "total_yield_of yield ings =
     (case (case yield of
              None \<Rightarrow> float_sum 0 (map quantity_in_grams ings)
            | Some t \<Rightarrow> if t \<noteq> 0 then Inr t else float_sum 0 (map quantity_in_grams ings)) of
        Inl e \<Rightarrow> Inl e
      | Inr v \<Rightarrow> Inr (if v = 0 then 100 else v))"

definition scale_factor_of :: "rat \<Rightarrow> rat \<Rightarrow> error + rat" where
  "scale_factor_of total_yield_val serving_size =
     (if serving_size > 0 then float_div total_yield_val serving_size else Inr 1)"

text \<open>Line 279: the scale factor as it is stored.\<close>

definition stored_scale_factor :: "rat \<Rightarrow> rat \<Rightarrow> error + rat" where
  "stored_scale_factor total_yield_val serving_size =
     (case scale_factor_of total_yield_val serving_size of
        Inl e \<Rightarrow> Inl e
      | Inr sf \<Rightarrow> round2 sf)"

definition metadata_rows :: "sheet \<Rightarrow> nat \<Rightarrow> nat list" where
  "metadata_rows ws rid_row = [rid_row..<min (rid_row + 8) (max_row ws + 1)]"

definition ingredients_label_rows :: "sheet \<Rightarrow> nat \<Rightarrow> nat list" where
  "ingredients_label_rows ws rid_row = [rid_row..<min (rid_row + 12) (max_row ws + 1)]"

definition build_recipe ::
  "idgen \<Rightarrow> nat \<Rightarrow> string \<Rightarrow> string option \<Rightarrow> metadata \<Rightarrow> ingredient list
     \<Rightarrow> error + recipe" where
  "build_recipe gen k rname cat m ings =
     (let serving_size = serving_size_of (per_serving_weight m)
      in case total_yield_of (total_yield m) ings of
           Inl e \<Rightarrow> Inl e
         | Inr total_yield_val \<Rightarrow>
             (case stored_scale_factor total_yield_val serving_size of
                Inl e \<Rightarrow> Inl e
              | Inr sf \<Rightarrow>
                  Inr \<lparr>recipe_id = generate_recipe_id gen k,
                       recipe_name = rname,
                       category = (case cat of None \<Rightarrow> [] | Some c \<Rightarrow> c),
                       status = ''IMPORTED'',
                       recipe_description = (case description m of None \<Rightarrow> [] | Some d \<Rightarrow> d),
                       preparation_time_minutes = prep_time m,
                       owner_email = OWNER_EMAIL,
                       scale_factor = sf,
                       total_yield_grams = total_yield_val,
                       serving_size_grams = serving_size,
                       total_cooked_weight_grams = total_yield_val,
                       calories = (case total_calories m of None \<Rightarrow> 0 | Some c \<Rightarrow> c),
                       nutrition_total_yield_grams = total_yield_val,
                       nutrition_serving_size_grams = serving_size,
                       ingredients = ings,
                       source_recipe_id = recipe_id_source m\<rparr>))"

text \<open>
  \<^verbatim>\<open>parse_recipe\<close>: the record, or \<open>None\<close> where the script returns \<^verbatim>\<open>None\<close>, and the
  count of identifiers drawn so far.
\<close>

definition parse_recipe ::
  "sheet \<Rightarrow> idgen \<Rightarrow> string \<Rightarrow> nat \<Rightarrow> string option \<Rightarrow> nat \<Rightarrow> error + (recipe option \<times> nat)" where
  "parse_recipe ws gen rname rid_row cat k =
     (case parse_metadata ws (metadata_rows ws rid_row) no_metadata of
        Inl e \<Rightarrow> Inl e
      | Inr m \<Rightarrow>
          (case find_ingredients_start ws (ingredients_label_rows ws rid_row) of
             None \<Rightarrow> Inr (None, k)
           | Some ingredients_start \<Rightarrow>
               (case parse_ingredients ws gen ingredients_start k of
                  Inl e \<Rightarrow> Inl e
                | Inr (items, k') \<Rightarrow>
                    (case build_recipe gen k' rname cat m (map snd items) of
                       Inl e \<Rightarrow> Inl e
                     | Inr recipe \<Rightarrow> Inr (Some recipe, k' + 1)))))"

section \<open>\<^verbatim>\<open>parse_excel\<close>, pass 2: the loop over the markers\<close>

text \<open>
  The body of the loop of lines 56 to 124 for the marker \<open>rid_row\<close> at position \<open>idx\<close>,
  entered with \<^verbatim>\<open>current_category = cat\<close>: the value of \<^verbatim>\<open>current_category\<close> after it,
  the record it appends if any, and the count of identifiers drawn.
\<close>

definition resolve_category ::
  "sheet \<Rightarrow> nat list \<Rightarrow> nat \<Rightarrow> nat \<Rightarrow> string option \<Rightarrow> string option" where
  "resolve_category ws rid_rows idx recipe_name_row cat =
     (case find_category ws rid_rows idx (rows_above recipe_name_row) of
        None \<Rightarrow> cat
      | Some val \<Rightarrow> Some val)"

definition marker_step ::
  "sheet \<Rightarrow> idgen \<Rightarrow> nat list \<Rightarrow> nat \<Rightarrow> nat \<Rightarrow> string option \<Rightarrow> nat
     \<Rightarrow> error + (string option \<times> recipe option \<times> nat)" where
  "marker_step ws gen rid_rows idx rid_row cat k =
     (case find_name ws (rows_above rid_row) of
        None \<Rightarrow> Inr (cat, None, k)
      | Some (rname, recipe_name_row) \<Rightarrow>
          (let cat' = resolve_category ws rid_rows idx recipe_name_row cat
           in case parse_recipe ws gen rname rid_row cat' k of
                Inl e \<Rightarrow> Inl e
              | Inr (r, k') \<Rightarrow> Inr (cat', r, k')))"

fun pass2 ::
  "sheet \<Rightarrow> idgen \<Rightarrow> nat list \<Rightarrow> (nat \<times> nat) list \<Rightarrow> string option \<Rightarrow> nat
     \<Rightarrow> error + recipe list" where
  "pass2 ws gen rid_rows [] cat k = Inr []"
| "pass2 ws gen rid_rows ((idx, rid_row) # rest) cat k =
     (case marker_step ws gen rid_rows idx rid_row cat k of
        Inl e \<Rightarrow> Inl e
      | Inr (cat', r, k') \<Rightarrow>
          (case pass2 ws gen rid_rows rest cat' k' of
             Inl e \<Rightarrow> Inl e
           | Inr recipes \<Rightarrow> Inr (case r of None \<Rightarrow> recipes | Some x \<Rightarrow> x # recipes)))"

definition parse_excel :: "sheet \<Rightarrow> idgen \<Rightarrow> error + recipe list" where
  "parse_excel ws gen =
     (let rid_rows = recipe_id_rows ws
      in pass2 ws gen rid_rows (enumerate 0 rid_rows) None 0)"

section \<open>The claims in the words of the specification, and sample worksheets\<close>

text \<open>
  The specification speaks of a value that contains "a 4-digit year pattern"; the script
  has no such test. This is the reading of those words: four digits in a row.
\<close>

fun spec_four_digit_year :: "string \<Rightarrow> bool" where
  "spec_four_digit_year (a # b # c # d # rest) =
     ((isdigit a \<and> isdigit b \<and> isdigit c \<and> isdigit d)
      \<or> spec_four_digit_year (b # c # d # rest))"
| "spec_four_digit_year s = False"

text \<open>
  Two runs are compared with the generated identifiers blanked: the \<^verbatim>\<open>id\<close> of a record
  and the \<^verbatim>\<open>entity_ingredient_id\<close> of each of its items.
\<close>

definition erase_item_id :: "ingredient \<Rightarrow> ingredient" where
  "erase_item_id i = i\<lparr>entity_ingredient_id := []\<rparr>"

definition erase_ids :: "recipe \<Rightarrow> recipe" where
  "erase_ids r = r\<lparr>recipe_id := [], ingredients := map erase_item_id (ingredients r)\<rparr>"

fun blank_output :: "error + recipe list \<Rightarrow> error + recipe list" where
  "blank_output (Inl e) = Inl e"
| "blank_output (Inr recipes) = Inr (map erase_ids recipes)"

text \<open>The same view of the results of the inner functions, without the call counts.\<close>

fun blank_items ::
  "error + ((nat \<times> ingredient) list \<times> nat) \<Rightarrow> error + (nat \<times> ingredient) list" where
  "blank_items (Inl e) = Inl e"
| "blank_items (Inr (items, k)) = Inr (map (apsnd erase_item_id) items)"

fun blank_built :: "error + recipe \<Rightarrow> error + recipe" where
  "blank_built (Inl e) = Inl e"
| "blank_built (Inr r) = Inr (erase_ids r)"

fun blank_recipe :: "error + (recipe option \<times> nat) \<Rightarrow> error + recipe option" where
  "blank_recipe (Inl e) = Inl e"
| "blank_recipe (Inr (r, k)) = Inr (map_option erase_ids r)"

fun blank_step ::
  "error + (string option \<times> recipe option \<times> nat) \<Rightarrow> error + (string option \<times> recipe option)" where
  "blank_step (Inl e) = Inl e"
| "blank_step (Inr (cat, r, k)) = Inr (cat, map_option erase_ids r)"

definition sample_ids :: idgen where
  "sample_ids = (\<lambda>k. (1770000000000 + int k, ''abcdefghi''))"

definition other_ids :: idgen where
  "other_ids = (\<lambda>k. (1770000099000 + 7 * int k, ''zyxwvutsr''))"

text \<open>
  One record: a category in row 1, the name in row 3, the marker in row 4, the label of
  the ingredient rows in row 6 and its header in row 7. Row 8 is item 1, row 9 has no
  ordinal and a note in column B, row 10 is item 2, row 11 is empty, row 12 is item 3.
\<close>

definition soup_sheet :: sheet where
  "soup_sheet =
     [[Text ''Soups''],
      [],
      [Text ''Lentil Soup''],
      [Empty, Text ''Recipe ID'', Text ''R-17''],
      [Empty, Text ''Total Yield'', Number 500, Empty, Empty,
       Text ''Per Serving Weight'', Number 100],
      [Text ''Ingredients''],
      [Text ''S.No'', Text ''Ingredient ID'', Text ''Name''],
      [Number 1, Text ''i-1'', Text ''Lentils'', Empty, Empty,
       Number 200, Number 90, Number 180, Number 3],
      [Empty, Text ''soaked overnight''],
      [Number 2, Text ''i-2'', Text ''Water'', Empty, Empty, Number 300],
      [],
      [Number 3, Text ''i-3'', Text ''Salt'', Empty, Empty, Number 5]]"

text \<open>
  One numbered row whose yield-adjusted quantity (column H) is a text that is no number,
  with the raw quantity 5 in column F.
\<close>

definition unparseable_yield_sheet :: sheet where
  "unparseable_yield_sheet =
     [[Number 1, Text ''i-1'', Text ''Stock'', Empty, Empty,
       Number 5, Empty, Text ''n/a'', Empty]]"

text \<open>A name and a marker, and no label of ingredient rows below the marker.\<close>

definition no_ingredients_sheet :: sheet where
  "no_ingredients_sheet =
     [[Text ''Plain Rice''],
      [Empty, Text ''Recipe ID'', Text ''R-2''],
      [Empty, Text ''Total Yield'', Number 300]]"

text \<open>A marker under a label row whose text has no year in it.\<close>

definition top20_sheet :: sheet where
  "top20_sheet =
     [[Text ''Top-20 Salad''],
      [Empty, Text ''Recipe ID'', Text ''R-3'']]"

text \<open>A record whose per-serving weight is negative.\<close>

definition negative_weight_sheet :: sheet where
  "negative_weight_sheet =
     [[Text ''Broth''],
      [Empty, Text ''Recipe ID'', Text ''R-4'', Empty, Empty,
       Text ''Per Serving Weight'', Number (- 50)],
      [Empty, Text ''Total Yield'', Number 500],
      [Text ''Ingredients''],
      [Number 1, Text ''i-9'', Text ''Bones'', Empty, Empty, Number 500]]"



text \<open>
  Two records. The first has the category \<open>A\<close> above its name; the second has its name
  directly under the rows of the first and no category of its own.
\<close>

definition two_marker_sheet :: sheet where
  "two_marker_sheet =
     [[Text ''A''],
      [Text ''First''],
      [Empty, Text ''Recipe ID'', Text ''R-5''],
      [Text ''Ingredients''],
      [Number 1, Text ''i-1'', Text ''Rice'', Empty, Empty, Number 100],
      [],
      [Text ''Second''],
      [Empty, Text ''Recipe ID'', Text ''R-6''],
      [Text ''Ingredients''],
      [Number 1, Text ''i-2'', Text ''Beans'', Empty, Empty, Number 50]]"

section \<open>Substrings\<close>

lemma starts_with_iff: "starts_with p s \<longleftrightarrow> (\<exists>v. s = p @ v)"
  by (induction p s rule: starts_with.induct) auto

lemma contains_iff: "contains p s \<longleftrightarrow> (\<exists>u v. s = u @ p @ v)"
proof (induction s)
  case Nil
  then show ?case by auto
next
  case (Cons c cs)
  show ?case
  proof
    assume "contains p (c # cs)"
    then consider "starts_with p (c # cs)" | "contains p cs" by auto
    then show "\<exists>u v. c # cs = u @ p @ v"
    proof cases
      case 1
      then obtain v where "c # cs = p @ v" using starts_with_iff by blast
      then have "c # cs = [] @ p @ v" by simp
      then show ?thesis by blast
    next
      case 2
      then obtain u v where "cs = u @ p @ v" using Cons.IH by blast
      then have "c # cs = (c # u) @ p @ v" by simp
      then show ?thesis by blast
    qed
  next
    assume "\<exists>u v. c # cs = u @ p @ v"
    then obtain u v where uv: "c # cs = u @ p @ v" by blast
    show "contains p (c # cs)"
    proof (cases u)
      case Nil
      with uv have "starts_with p (c # cs)" using starts_with_iff by auto
      then show ?thesis by simp
    next
      case (Cons a u')
      with uv have "cs = u' @ p @ v" by simp
      then have "contains p cs" using Cons.IH by blast
      then show ?thesis by simp
    qed
  qed
qed

section \<open>The ingredient loop\<close>

lemma qty_fields:
  assumes "parse_ingredient_row ws gen row k = Inr ing"
  shows "quantity_in_grams ing = quantity ing \<and> yield_quantity_in_grams ing = quantity ing"
  using assms
  by (auto simp: parse_ingredient_row_def Let_def split: sum.splits)


lemma parse_ingredients_items:
  "parse_ingredients ws gen row k = Inr (items, k') \<Longrightarrow> (r, ing) \<in> set items \<Longrightarrow>
     row \<le> r \<and> r \<le> max_row ws \<and> cell_value ws r 1 \<noteq> Empty
     \<and> (\<exists>n. ordinal (cell_value ws r 1) = Inr n)
     \<and> (\<exists>j. parse_ingredient_row ws gen r j = Inr ing)"
proof (induction ws gen row k arbitrary: items k' rule: parse_ingredients.induct)
  case (1 ws gen row k)
  show ?case
  proof (cases "row \<le> max_row ws")
    case False
    with "1.prems" show ?thesis by (simp add: parse_ingredients.simps)
  next
    case inrange: True
    show ?thesis
    proof (cases "cell_value ws row 1 = Empty")
      case True
      show ?thesis
      proof (cases "\<not> truthy (cell_value ws row 2) \<and> \<not> truthy (cell_value ws row 3)")
        case True
        with "1.prems" inrange \<open>cell_value ws row 1 = Empty\<close> show ?thesis
          by (simp add: parse_ingredients.simps)
      next
        case False
        with "1.prems" inrange \<open>cell_value ws row 1 = Empty\<close>
        have "parse_ingredients ws gen (row + 1) k = Inr (items, k')"
          by (simp add: parse_ingredients.simps [of ws gen row] split: if_splits)
        from "1.IH"(2) [OF inrange refl _ refl refl False this "1.prems"(2)]
          \<open>cell_value ws row 1 = Empty\<close>
        show ?thesis by simp
      qed
    next
      case nonempty: False
      from "1.prems"(1) inrange nonempty obtain n ing0 rest where
        ord: "ordinal (cell_value ws row 1) = Inr n" and
        mk: "parse_ingredient_row ws gen row k = Inr ing0" and
        rec: "parse_ingredients ws gen (row + 1) (k + 1) = Inr (rest, k')" and
        items: "items = (row, ing0) # rest"
        using "1.prems"(2)
        by (auto simp: parse_ingredients.simps [of ws gen row] split: sum.splits if_splits prod.splits)
      show ?thesis
      proof (cases "(r, ing) = (row, ing0)")
        case True
        with ord mk inrange nonempty show ?thesis by auto
      next
        case False
        with items "1.prems"(2) have "(r, ing) \<in> set rest" by auto
        from "1.IH"(1) [OF inrange refl nonempty ord mk rec this]
        show ?thesis by simp
      qed
    qed
  qed
qed


lemma parse_ingredients_skip:
  assumes "row \<le> max_row ws" and "cell_value ws row 1 = Empty"
    and "truthy (cell_value ws row 2) \<or> truthy (cell_value ws row 3)"
  shows "parse_ingredients ws gen row k = parse_ingredients ws gen (row + 1) k"
  using assms by (auto simp: parse_ingredients.simps [of ws gen row])

section \<open>Where a record of the output comes from\<close>

lemma marker_step_recipe:
  assumes "marker_step ws gen rid_rows idx rid_row cat k = Inr (cat', Some r, k')"
  shows "\<exists>rname c. parse_recipe ws gen rname rid_row c k = Inr (Some r, k')"
  using assms
  by (auto simp: marker_step_def Let_def split: option.splits sum.splits prod.splits)

lemma pass2_recipe:
  "pass2 ws gen rid_rows ms cat k = Inr recipes \<Longrightarrow> r \<in> set recipes \<Longrightarrow>
     \<exists>rname idx rid_row c j j'. (idx, rid_row) \<in> set ms
        \<and> parse_recipe ws gen rname rid_row c j = Inr (Some r, j')"
proof (induction ms arbitrary: cat k recipes)
  case Nil
  then show ?case by simp
next
  case (Cons m ms)
  obtain idx rid_row where m: "m = (idx, rid_row)" by (cases m)
  from Cons.prems(1) m obtain cat' ro k' rest where
    step: "marker_step ws gen rid_rows idx rid_row cat k = Inr (cat', ro, k')" and
    tail: "pass2 ws gen rid_rows ms cat' k' = Inr rest" and
    recs: "recipes = (case ro of None \<Rightarrow> rest | Some x \<Rightarrow> x # rest)"
    by (auto split: sum.splits prod.splits)
  show ?case
  proof (cases "r \<in> set rest")
    case True
    from Cons.IH [OF tail True] show ?thesis by (simp add: m) blast
  next
    case False
    with recs Cons.prems(2) have "ro = Some r" by (auto split: option.splits)
    with step marker_step_recipe show ?thesis unfolding m by fastforce
  qed
qed

lemma build_recipe_fields:
  assumes "build_recipe gen k rname cat m ings = Inr r"
  shows "recipe_name r = rname"
    and "category r = (case cat of None \<Rightarrow> [] | Some c \<Rightarrow> c)"
    and "ingredients r = ings"
    and "serving_size_grams r = serving_size_of (per_serving_weight m)"
    and "total_yield_of (total_yield m) ings = Inr (total_yield_grams r)"
    and "stored_scale_factor (total_yield_grams r) (serving_size_grams r)
           = Inr (scale_factor r)"
  using assms
  by (auto simp: build_recipe_def Let_def split: sum.splits)

lemma parse_recipe_built:
  assumes "parse_recipe ws gen rname rid_row cat k = Inr (Some r, k')"
  shows "\<exists>m start items j.
           parse_metadata ws (metadata_rows ws rid_row) no_metadata = Inr m
           \<and> find_ingredients_start ws (ingredients_label_rows ws rid_row) = Some start
           \<and> parse_ingredients ws gen start k = Inr (items, j)
           \<and> build_recipe gen j rname cat m (map snd items) = Inr r"
  using assms
  by (auto simp: parse_recipe_def split: sum.splits option.splits prod.splits)

lemma parse_recipe_none:
  assumes "parse_recipe ws gen rname rid_row cat k = Inr (None, k')"
  shows "find_ingredients_start ws (ingredients_label_rows ws rid_row) = None"
  using assms
  by (auto simp: parse_recipe_def split: sum.splits option.splits prod.splits)

lemma parse_recipe_ingredient:
  assumes "parse_recipe ws gen rname rid_row c j = Inr (Some r, j')"
    and "ing \<in> set (ingredients r)"
  shows "\<exists>row i. parse_ingredient_row ws gen row i = Inr ing"
proof -
  from parse_recipe_built [OF assms(1)] obtain m start items k' where
    loop: "parse_ingredients ws gen start j = Inr (items, k')" and
    r: "build_recipe gen k' rname c m (map snd items) = Inr r"
    by blast
  from build_recipe_fields(3) [OF r] assms(2) have "ing \<in> snd ` set items" by simp
  then obtain row where "(row, ing) \<in> set items" by auto
  from parse_ingredients_items [OF loop this] show ?thesis by blast
qed

section \<open>Which markers give a record\<close>

text \<open>A marker gives a record when a name is found above it and the label of the
  ingredient rows is found below it.\<close>

lemma marker_step_emits:
  assumes "marker_step ws gen rid_rows idx rid_row cat k = Inr (cat', r, k')"
  shows "r = None \<longleftrightarrow>
           find_name ws (rows_above rid_row) = None
           \<or> find_ingredients_start ws (ingredients_label_rows ws rid_row) = None"
proof (cases "find_name ws (rows_above rid_row)")
  case None
  with assms show ?thesis by (simp add: marker_step_def)
next
  case (Some p)
  obtain rname name_row where p: "p = (rname, name_row)" by (cases p)
  let ?cat = "resolve_category ws rid_rows idx name_row cat"
  from assms Some p have run: "parse_recipe ws gen rname rid_row ?cat k = Inr (r, k')"
    by (simp add: marker_step_def Let_def split: sum.splits prod.splits)
  show ?thesis
  proof (cases r)
    case None
    with run have "parse_recipe ws gen rname rid_row ?cat k = Inr (None, k')" by simp
    from parse_recipe_none [OF this] None show ?thesis by simp
  next
    case (Some x)
    with run parse_recipe_built [of ws gen rname rid_row ?cat k x k']
    have "find_ingredients_start ws (ingredients_label_rows ws rid_row) \<noteq> None" by auto
    with Some \<open>find_name ws (rows_above rid_row) = Some p\<close> show ?thesis by simp
  qed
qed

lemma marker_step_name:
  assumes "marker_step ws gen rid_rows idx rid_row cat k = Inr (cat', Some r, k')"
  shows "fst (the (find_name ws (rows_above rid_row))) = recipe_name r"
proof (cases "find_name ws (rows_above rid_row)")
  case None
  with assms show ?thesis by (simp add: marker_step_def)
next
  case (Some p)
  obtain rname name_row where p: "p = (rname, name_row)" by (cases p)
  from assms Some p have
    "parse_recipe ws gen rname rid_row (resolve_category ws rid_rows idx name_row cat) k
       = Inr (Some r, k')"
    by (simp add: marker_step_def Let_def split: sum.splits prod.splits)
  from parse_recipe_built [OF this] obtain m and items :: "(nat \<times> ingredient) list" and j
    where "build_recipe gen j rname (resolve_category ws rid_rows idx name_row cat) m
        (map snd items) = Inr r"
    by blast
  from build_recipe_fields(1) [OF this] Some p show ?thesis by simp
qed

lemma pass2_names:
  "pass2 ws gen rid_rows ms cat k = Inr recipes \<Longrightarrow>
     map recipe_name recipes =
       map (\<lambda>(idx, rid). fst (the (find_name ws (rows_above rid))))
         (filter (\<lambda>(idx, rid). find_name ws (rows_above rid) \<noteq> None
                    \<and> find_ingredients_start ws (ingredients_label_rows ws rid) \<noteq> None) ms)"
proof (induction ms arbitrary: cat k recipes)
  case Nil
  then show ?case by simp
next
  case (Cons m ms)
  obtain idx rid_row where m: "m = (idx, rid_row)" by (cases m)
  from Cons.prems(1) m obtain cat' ro k' rest where
    step: "marker_step ws gen rid_rows idx rid_row cat k = Inr (cat', ro, k')" and
    tail: "pass2 ws gen rid_rows ms cat' k' = Inr rest" and
    recs: "recipes = (case ro of None \<Rightarrow> rest | Some x \<Rightarrow> x # rest)"
    by (auto split: sum.splits prod.splits)
  note IH = Cons.IH [OF tail]
  show ?case
  proof (cases ro)
    case None
    with marker_step_emits [OF step] recs IH m show ?thesis by auto
  next
    case (Some x)
    with marker_step_emits [OF step]
    have "find_name ws (rows_above rid_row) \<noteq> None"
      "find_ingredients_start ws (ingredients_label_rows ws rid_row) \<noteq> None" by auto
    moreover from step Some
    have "fst (the (find_name ws (rows_above rid_row))) = recipe_name x"
      by (simp add: marker_step_name)
    ultimately show ?thesis using recs IH m Some by simp
  qed
qed

lemma filter_enumerate_snd:
  "map snd (filter (\<lambda>(idx, x). P x) (enumerate n xs)) = filter P xs"
  by (induction xs arbitrary: n) auto

lemma parse_excel_names:
  assumes "parse_excel ws gen = Inr recipes"
  shows "map recipe_name recipes =
       map (\<lambda>rid. fst (the (find_name ws (rows_above rid))))
         (filter (\<lambda>rid. find_name ws (rows_above rid) \<noteq> None
                    \<and> find_ingredients_start ws (ingredients_label_rows ws rid) \<noteq> None)
            (recipe_id_rows ws))"
proof -
  let ?P = "\<lambda>rid. find_name ws (rows_above rid) \<noteq> None
                    \<and> find_ingredients_start ws (ingredients_label_rows ws rid) \<noteq> None"
  let ?ms = "enumerate 0 (recipe_id_rows ws)"
  from assms have "pass2 ws gen (recipe_id_rows ws) ?ms None 0 = Inr recipes"
    by (simp add: parse_excel_def Let_def)
  from pass2_names [OF this]
  have "map recipe_name recipes =
      map (\<lambda>rid. fst (the (find_name ws (rows_above rid))))
        (map snd (filter (\<lambda>(idx, rid). ?P rid) ?ms))"
    by (simp add: case_prod_unfold comp_def)
  then show ?thesis by (simp only: filter_enumerate_snd)
qed

lemma parse_excel_count:
  assumes "parse_excel ws gen = Inr recipes"
  shows "length recipes =
       length (filter (\<lambda>rid. find_name ws (rows_above rid) \<noteq> None
                    \<and> find_ingredients_start ws (ingredients_label_rows ws rid) \<noteq> None)
            (recipe_id_rows ws))"
proof -
  have "length recipes = length (map recipe_name recipes)" by simp
  also note parse_excel_names [OF assms]
  finally show ?thesis by simp
qed

section \<open>Two runs with different identifiers\<close>

lemma row_ids_only:
  "map_sum id erase_item_id (parse_ingredient_row ws gen1 row k1)
     = map_sum id erase_item_id (parse_ingredient_row ws gen2 row k2)"
  by (simp add: parse_ingredient_row_def Let_def erase_item_id_def split: sum.splits)

lemma items_ids_only:
  "blank_items (parse_ingredients ws gen1 row k1)
     = blank_items (parse_ingredients ws gen2 row k2)"
proof (induction ws gen1 row k1 arbitrary: k2 rule: parse_ingredients.induct)
  case (1 ws gen1 row k1)
  show ?case
  proof (cases "row \<le> max_row ws")
    case False
    then show ?thesis by (simp add: parse_ingredients.simps)
  next
    case inrange: True
    show ?thesis
    proof (cases "cell_value ws row 1 = Empty")
      case True
      show ?thesis
      proof (cases "\<not> truthy (cell_value ws row 2) \<and> \<not> truthy (cell_value ws row 3)")
        case True
        with inrange \<open>cell_value ws row 1 = Empty\<close> show ?thesis
          by (simp add: parse_ingredients.simps)
      next
        case False
        from \<open>cell_value ws row 1 = Empty\<close>
        have "\<not> cell_value ws row 1 \<noteq> Empty" by simp
        from "1.IH"(2) [OF inrange refl this refl refl False, of k2]
        have "blank_items (parse_ingredients ws gen1 (row + 1) k1)
            = blank_items (parse_ingredients ws gen2 (row + 1) k2)"
          .
        moreover from inrange False \<open>cell_value ws row 1 = Empty\<close>
        have "parse_ingredients ws gen1 row k1 = parse_ingredients ws gen1 (row + 1) k1"
          "parse_ingredients ws gen2 row k2 = parse_ingredients ws gen2 (row + 1) k2"
          by (simp_all add: parse_ingredients_skip)
        ultimately show ?thesis by simp
      qed
    next
      case nonempty: False
      show ?thesis
      proof (cases "ordinal (cell_value ws row 1)")
        case (Inl e)
        with inrange nonempty show ?thesis
          by (simp add: parse_ingredients.simps [of ws _ row])
      next
        case (Inr n)
        note rows = row_ids_only [of ws gen1 row k1 gen2 k2]
        show ?thesis
        proof (cases "parse_ingredient_row ws gen1 row k1")
          case e1: (Inl e)
          with rows have "parse_ingredient_row ws gen2 row k2 = Inl e"
            by (cases "parse_ingredient_row ws gen2 row k2") auto
          with e1 inrange nonempty Inr show ?thesis
            by (simp add: parse_ingredients.simps [of ws _ row])
        next
          case i1: (Inr ing1)
          with rows obtain ing2 where
            i2: "parse_ingredient_row ws gen2 row k2 = Inr ing2" and
            same: "erase_item_id ing1 = erase_item_id ing2"
            by (cases "parse_ingredient_row ws gen2 row k2") auto
          from "1.IH"(1) [OF inrange refl nonempty Inr i1, of "k2 + 1"]
          have tail: "blank_items
                (parse_ingredients ws gen1 (row + 1) (k1 + 1))
              = blank_items
                (parse_ingredients ws gen2 (row + 1) (k2 + 1))" .
          show ?thesis
          proof (cases "parse_ingredients ws gen1 (row + 1) (k1 + 1)")
            case t1: (Inl e)
            with tail have "parse_ingredients ws gen2 (row + 1) (k2 + 1) = Inl e"
              by (cases "parse_ingredients ws gen2 (row + 1) (k2 + 1)") auto
            with t1 i1 i2 inrange nonempty Inr show ?thesis
              by (simp add: parse_ingredients.simps [of ws _ row])
          next
            case t1: (Inr p1)
            with tail obtain p2 where
              t2: "parse_ingredients ws gen2 (row + 1) (k2 + 1) = Inr p2" and
              eq: "map (apsnd erase_item_id) (fst p1) = map (apsnd erase_item_id) (fst p2)"
              by (cases "parse_ingredients ws gen2 (row + 1) (k2 + 1)"; cases p1) auto
            with t1 i1 i2 same inrange nonempty Inr show ?thesis
              by (cases p1; cases p2) (simp add: parse_ingredients.simps [of ws _ row])
          qed
        qed
      qed
    qed
  qed
qed

lemma build_recipe_ids_only:
  assumes "map erase_item_id ings1 = map erase_item_id ings2"
  shows "blank_built (build_recipe gen1 k1 rname cat m ings1)
       = blank_built (build_recipe gen2 k2 rname cat m ings2)"
proof -
  have "map quantity_in_grams ings1 = map (quantity_in_grams \<circ> erase_item_id) ings1"
    by (simp add: erase_item_id_def)
  also have "\<dots> = map quantity_in_grams (map erase_item_id ings1)" by simp
  also have "\<dots> = map quantity_in_grams (map erase_item_id ings2)" using assms by simp
  also have "\<dots> = map quantity_in_grams ings2" by (simp add: erase_item_id_def comp_def)
  finally have q: "map quantity_in_grams ings1 = map quantity_in_grams ings2" .
  have t: "total_yield_of (total_yield m) ings1 = total_yield_of (total_yield m) ings2"
    by (simp only: total_yield_of_def q)
  show ?thesis
  proof (cases "total_yield_of (total_yield m) ings2")
    case (Inl e)
    with t show ?thesis by (simp add: build_recipe_def Let_def)
  next
    case (Inr v)
    show ?thesis
    proof (cases "stored_scale_factor v (serving_size_of (per_serving_weight m))")
      case (Inl e)
      with t Inr show ?thesis by (simp add: build_recipe_def Let_def)
    next
      case sf: (Inr f)
      with t Inr assms show ?thesis
        by (simp add: build_recipe_def Let_def erase_ids_def)
    qed
  qed
qed

lemma parse_recipe_ids_only:
  "blank_recipe (parse_recipe ws gen1 rname rid_row cat k1)
     = blank_recipe (parse_recipe ws gen2 rname rid_row cat k2)"
proof (cases "parse_metadata ws (metadata_rows ws rid_row) no_metadata")
  case (Inl e)
  then show ?thesis by (simp add: parse_recipe_def)
next
  case (Inr m)
  show ?thesis
  proof (cases "find_ingredients_start ws (ingredients_label_rows ws rid_row)")
    case None
    with Inr show ?thesis by (simp add: parse_recipe_def)
  next
    case (Some start)
    note items = items_ids_only [of ws gen1 start k1 gen2 k2]
    show ?thesis
    proof (cases "parse_ingredients ws gen1 start k1")
      case l1: (Inl e)
      with items have "parse_ingredients ws gen2 start k2 = Inl e"
        by (cases "parse_ingredients ws gen2 start k2") auto
      with l1 Inr Some show ?thesis by (simp add: parse_recipe_def)
    next
      case r1: (Inr p1)
      obtain items1 j1 where p1: "p1 = (items1, j1)" by (cases p1)
      from r1 p1 items obtain items2 j2 where
        r2: "parse_ingredients ws gen2 start k2 = Inr (items2, j2)" and
        eq: "map (apsnd erase_item_id) items1 = map (apsnd erase_item_id) items2"
        by (cases "parse_ingredients ws gen2 start k2") auto
      from eq have "map snd (map (apsnd erase_item_id) items1)
          = map snd (map (apsnd erase_item_id) items2)" by simp
      then have "map erase_item_id (map snd items1) = map erase_item_id (map snd items2)"
        by (simp add: comp_def)
      note built = build_recipe_ids_only [OF this, of gen1 j1 rname cat m gen2 j2]
      show ?thesis
      proof (cases "build_recipe gen1 j1 rname cat m (map snd items1)")
        case b1: (Inl e)
        with built have "build_recipe gen2 j2 rname cat m (map snd items2) = Inl e"
          by (cases "build_recipe gen2 j2 rname cat m (map snd items2)") auto
        with b1 r1 p1 r2 Inr Some show ?thesis by (simp add: parse_recipe_def)
      next
        case b1: (Inr x1)
        with built obtain x2 where
          b2: "build_recipe gen2 j2 rname cat m (map snd items2) = Inr x2" and
          same: "erase_ids x1 = erase_ids x2"
          by (cases "build_recipe gen2 j2 rname cat m (map snd items2)") auto
        with b1 r1 p1 r2 Inr Some show ?thesis by (simp add: parse_recipe_def)
      qed
    qed
  qed
qed

lemma marker_step_ids_only:
  "blank_step (marker_step ws gen1 rid_rows idx rid_row cat k1)
     = blank_step (marker_step ws gen2 rid_rows idx rid_row cat k2)"
proof (cases "find_name ws (rows_above rid_row)")
  case None
  then show ?thesis by (simp add: marker_step_def)
next
  case (Some p)
  obtain rname name_row where p: "p = (rname, name_row)" by (cases p)
  let ?cat = "resolve_category ws rid_rows idx name_row cat"
  note rec = parse_recipe_ids_only [of ws gen1 rname rid_row ?cat k1 gen2 k2]
  show ?thesis
  proof (cases "parse_recipe ws gen1 rname rid_row ?cat k1")
    case l1: (Inl e)
    with rec have "parse_recipe ws gen2 rname rid_row ?cat k2 = Inl e"
      by (cases "parse_recipe ws gen2 rname rid_row ?cat k2") auto
    with l1 Some p show ?thesis by (simp add: marker_step_def)
  next
    case r1: (Inr q1)
    obtain ro1 j1 where q1: "q1 = (ro1, j1)" by (cases q1)
    from r1 q1 rec obtain ro2 j2 where
      r2: "parse_recipe ws gen2 rname rid_row ?cat k2 = Inr (ro2, j2)" and
      eq: "map_option erase_ids ro1 = map_option erase_ids ro2"
      by (cases "parse_recipe ws gen2 rname rid_row ?cat k2") auto
    with r1 q1 Some p show ?thesis by (simp add: marker_step_def)
  qed
qed

lemma pass2_ids_only:
  "blank_output (pass2 ws gen1 rid_rows ms cat k1)
     = blank_output (pass2 ws gen2 rid_rows ms cat k2)"
proof (induction ms arbitrary: cat k1 k2)
  case Nil
  show ?case by simp
next
  case (Cons m ms)
  obtain idx rid_row where m: "m = (idx, rid_row)" by (cases m)
  note step = marker_step_ids_only [of ws gen1 rid_rows idx rid_row cat k1 gen2 k2]
  show ?case
  proof (cases "marker_step ws gen1 rid_rows idx rid_row cat k1")
    case l1: (Inl e)
    with step have "marker_step ws gen2 rid_rows idx rid_row cat k2 = Inl e"
      by (cases "marker_step ws gen2 rid_rows idx rid_row cat k2") auto
    with l1 m show ?thesis by simp
  next
    case r1: (Inr q1)
    obtain cat' ro1 j1 where q1: "q1 = (cat', ro1, j1)" by (cases q1)
    from r1 q1 step obtain ro2 j2 where
      r2: "marker_step ws gen2 rid_rows idx rid_row cat k2 = Inr (cat', ro2, j2)" and
      eq: "map_option erase_ids ro1 = map_option erase_ids ro2"
      by (cases "marker_step ws gen2 rid_rows idx rid_row cat k2") auto
    note tail = Cons.IH [of cat' j1 j2]
    show ?thesis
    proof (cases "pass2 ws gen1 rid_rows ms cat' j1")
      case t1: (Inl e)
      with tail have "pass2 ws gen2 rid_rows ms cat' j2 = Inl e"
        by (cases "pass2 ws gen2 rid_rows ms cat' j2") auto
      with t1 r1 q1 r2 m show ?thesis by simp
    next
      case t1: (Inr rs1)
      with tail obtain rs2 where
        t2: "pass2 ws gen2 rid_rows ms cat' j2 = Inr rs2" and
        eqs: "map erase_ids rs1 = map erase_ids rs2"
        by (cases "pass2 ws gen2 rid_rows ms cat' j2") auto
      with t1 r1 q1 r2 m eq show ?thesis
        by (cases ro1; cases ro2) simp_all
    qed
  qed
qed

section \<open>The category carried through the loop\<close>

lemma parse_recipe_category:
  assumes "parse_recipe ws gen rname rid_row cat k = Inr (Some r, k')"
  shows "category r = (case cat of None \<Rightarrow> [] | Some c \<Rightarrow> c)"
proof -
  from parse_recipe_built [OF assms] obtain m and items :: "(nat \<times> ingredient) list" and j
    where "build_recipe gen j rname cat m (map snd items) = Inr r" by blast
  then show ?thesis by (rule build_recipe_fields(2))
qed

lemma marker_step_category:
  assumes "marker_step ws gen rid_rows idx rid_row cat k = Inr (cat', ro, k')"
  shows "cat' = (case find_name ws (rows_above rid_row) of
                   None \<Rightarrow> cat
                 | Some (rname, name_row) \<Rightarrow>
                     (case find_category ws rid_rows idx (rows_above name_row) of
                        None \<Rightarrow> cat
                      | Some val \<Rightarrow> Some val))"
    and "ro = Some r \<Longrightarrow> category r = (case cat' of None \<Rightarrow> [] | Some c \<Rightarrow> c)"
proof -
  show "cat' = (case find_name ws (rows_above rid_row) of
                   None \<Rightarrow> cat
                 | Some (rname, name_row) \<Rightarrow>
                     (case find_category ws rid_rows idx (rows_above name_row) of
                        None \<Rightarrow> cat
                      | Some val \<Rightarrow> Some val))"
  proof (cases "find_name ws (rows_above rid_row)")
    case None
    with assms show ?thesis by (simp add: marker_step_def)
  next
    case (Some p)
    obtain rname name_row where p: "p = (rname, name_row)" by (cases p)
    from assms Some p show ?thesis
      by (simp add: marker_step_def resolve_category_def Let_def split: sum.splits prod.splits)
  qed
next
  assume ro: "ro = Some r"
  show "category r = (case cat' of None \<Rightarrow> [] | Some c \<Rightarrow> c)"
  proof (cases "find_name ws (rows_above rid_row)")
    case None
    with assms ro show ?thesis by (simp add: marker_step_def)
  next
    case (Some p)
    obtain rname name_row where p: "p = (rname, name_row)" by (cases p)
    from assms Some p ro have
      "parse_recipe ws gen rname rid_row cat' k = Inr (Some r, k')"
      by (simp add: marker_step_def Let_def split: sum.splits prod.splits)
    then show ?thesis by (rule parse_recipe_category)
  qed
qed

lemma pass2_keeps_category:
  "pass2 ws gen rid_rows ms (Some A) k = Inr recipes \<Longrightarrow>
   \<forall>(i, rid)\<in>set ms. \<forall>n nr. find_name ws (rows_above rid) = Some (n, nr)
        \<longrightarrow> find_category ws rid_rows i (rows_above nr) = None \<Longrightarrow>
   \<forall>r\<in>set recipes. category r = A"
proof (induction ms arbitrary: k recipes)
  case Nil
  then show ?case by simp
next
  case (Cons m ms)
  obtain idx rid_row where m: "m = (idx, rid_row)" by (cases m)
  from Cons.prems(1) m obtain cat' ro k' rest where
    step: "marker_step ws gen rid_rows idx rid_row (Some A) k = Inr (cat', ro, k')" and
    tail: "pass2 ws gen rid_rows ms cat' k' = Inr rest" and
    recs: "recipes = (case ro of None \<Rightarrow> rest | Some x \<Rightarrow> x # rest)"
    by (auto split: sum.splits prod.splits)
  from Cons.prems(2) m have
    here: "\<forall>n nr. find_name ws (rows_above rid_row) = Some (n, nr)
        \<longrightarrow> find_category ws rid_rows idx (rows_above nr) = None"
    and later: "\<forall>(i, rid)\<in>set ms. \<forall>n nr. find_name ws (rows_above rid) = Some (n, nr)
        \<longrightarrow> find_category ws rid_rows i (rows_above nr) = None"
    by auto
  from marker_step_category(1) [OF step] here have cat': "cat' = Some A"
    by (auto split: option.splits)
  from Cons.IH [OF tail [unfolded cat'] later] have rest: "\<forall>r\<in>set rest. category r = A" .
  from marker_step_category(2) [OF step] cat' have "\<forall>r. ro = Some r \<longrightarrow> category r = A"
    by simp
  with rest recs show ?case by (auto split: option.splits)
qed

lemma pass2_append:
  "pass2 ws gen rid_rows (ms1 @ ms2) cat k = Inr recipes \<Longrightarrow>
     \<exists>rs1 rs2 cat' k'. recipes = rs1 @ rs2
        \<and> pass2 ws gen rid_rows ms1 cat k = Inr rs1
        \<and> pass2 ws gen rid_rows ms2 cat' k' = Inr rs2"
proof (induction ms1 arbitrary: cat k recipes)
  case Nil
  then show ?case by force
next
  case (Cons m ms1)
  obtain idx rid_row where m: "m = (idx, rid_row)" by (cases m)
  from Cons.prems m obtain cat1 ro k1 rest where
    step: "marker_step ws gen rid_rows idx rid_row cat k = Inr (cat1, ro, k1)" and
    tail: "pass2 ws gen rid_rows (ms1 @ ms2) cat1 k1 = Inr rest" and
    recs: "recipes = (case ro of None \<Rightarrow> rest | Some x \<Rightarrow> x # rest)"
    by (auto split: sum.splits prod.splits)
  from Cons.IH [OF tail] obtain rs1 rs2 cat' k' where
    split: "rest = rs1 @ rs2" and
    lead: "pass2 ws gen rid_rows ms1 cat1 k1 = Inr rs1" and
    rear: "pass2 ws gen rid_rows ms2 cat' k' = Inr rs2"
    by blast
  let ?rs1 = "case ro of None \<Rightarrow> rs1 | Some x \<Rightarrow> x # rs1"
  from recs split have "recipes = ?rs1 @ rs2" by (simp split: option.splits)
  moreover from step lead m have "pass2 ws gen rid_rows (m # ms1) cat k = Inr ?rs1"
    by simp
  ultimately show ?case using rear by blast
qed

lemma pass2_length:
  assumes "pass2 ws gen rid_rows ms cat k = Inr recipes"
  shows "length recipes \<le> length ms"
proof -
  have "length recipes = length (map recipe_name recipes)" by simp
  also note pass2_names [OF assms]
  finally show ?thesis by simp
qed

section \<open>Rounding\<close>

















section \<open>The claims\<close>







text \<open>
  C3, as amended. In a run that does not raise, a marker row yields no record if and
  only if no plausible name is found in the window above it or no \<open>Ingredients\<close> label
  is found in column A within the twelve rows from the marker on; every marker with both
  gives a record, and the records of the output are those of these markers, in row
  order, under the names found.
\<close>

theorem marker_yields_record:
  "(marker_step ws gen rid_rows idx rid_row cat k = Inr (cat', r, k')
      \<longrightarrow> (r = None \<longleftrightarrow>
             find_name ws (rows_above rid_row) = None
             \<or> find_ingredients_start ws (ingredients_label_rows ws rid_row) = None))
   \<and> (parse_excel ws gen = Inr recipes
      \<longrightarrow> map recipe_name recipes =
            map (\<lambda>rid. fst (the (find_name ws (rows_above rid))))
              (filter (\<lambda>rid. find_name ws (rows_above rid) \<noteq> None
                         \<and> find_ingredients_start ws (ingredients_label_rows ws rid) \<noteq> None)
                 (recipe_id_rows ws)))"
proof (intro conjI impI)
  assume "marker_step ws gen rid_rows idx rid_row cat k = Inr (cat', r, k')"
  then show "r = None \<longleftrightarrow>
             find_name ws (rows_above rid_row) = None
             \<or> find_ingredients_start ws (ingredients_label_rows ws rid_row) = None"
    by (rule marker_step_emits)
next
  assume "parse_excel ws gen = Inr recipes"
  then show "map recipe_name recipes =
            map (\<lambda>rid. fst (the (find_name ws (rows_above rid))))
              (filter (\<lambda>rid. find_name ws (rows_above rid) \<noteq> None
                         \<and> find_ingredients_start ws (ingredients_label_rows ws rid) \<noteq> None)
                 (recipe_id_rows ws))"
    by (rule parse_excel_names)
qed

theorem marker_yields_record_witness:
  "\<not> isl (parse_excel two_marker_sheet sample_ids)
   \<and> recipe_id_rows two_marker_sheet = [3, 8]
   \<and> map recipe_name (projr (parse_excel two_marker_sheet sample_ids)) = [''First'', ''Second'']
   \<and> \<not> isl (marker_step no_ingredients_sheet sample_ids [2] 0 2 None 0)
   \<and> fst (snd (projr (marker_step no_ingredients_sheet sample_ids [2] 0 2 None 0))) = None
   \<and> find_ingredients_start no_ingredients_sheet (ingredients_label_rows no_ingredients_sheet 2)
        = None"
proof -
  let ?out = "parse_excel two_marker_sheet sample_ids"
  let ?step = "marker_step no_ingredients_sheet sample_ids [2] 0 2 None 0"
  have n: "\<not> isl ?out" by code_simp
  then have e: "?out = Inr (projr ?out)" by simp
  have m: "\<not> isl ?step" by code_simp
  then have s: "?step = Inr (fst (projr ?step), fst (snd (projr ?step)), snd (snd (projr ?step)))"
    by simp
  have c: "recipe_id_rows two_marker_sheet = [3, 8]"
    "find_name two_marker_sheet (rows_above 3) = Some (''First'', 2)"
    "find_name two_marker_sheet (rows_above 8) = Some (''Second'', 7)"
    "find_ingredients_start two_marker_sheet (ingredients_label_rows two_marker_sheet 3) = Some 5"
    "find_ingredients_start two_marker_sheet (ingredients_label_rows two_marker_sheet 8) = Some 10"
    "find_ingredients_start no_ingredients_sheet (ingredients_label_rows no_ingredients_sheet 2)
        = None"
    by code_simp+
  from marker_yields_record [of two_marker_sheet sample_ids _ _ _ _ _ _ _ _ "projr ?out"] e c
  have 1: "map recipe_name (projr ?out) = [''First'', ''Second'']" by simp
  from marker_yields_record [of no_ingredients_sheet sample_ids "[2]" 0 2 None 0
      "fst (projr ?step)" "fst (snd (projr ?step))" "snd (snd (projr ?step))"] s c
  have 2: "fst (snd (projr ?step)) = None" by simp
  from n m c 1 2 show ?thesis by simp
qed

text \<open>
  The claim as the specification states it fails: in this worksheet the marker of
  row 2 resolves the name \<open>Plain Rice\<close>, no label of ingredient rows follows, and the
  output holds no record.
\<close>

theorem marker_yields_record_counterexample:
  "recipe_id_rows no_ingredients_sheet = [2]
   \<and> find_name no_ingredients_sheet (rows_above 2) = Some (''Plain Rice'', 1)
   \<and> parse_excel no_ingredients_sheet sample_ids = Inr []"
  by code_simp

text \<open>
  C4. The category is sticky across the scan. Let a marker resolve a name and, above it,
  the category \<open>A\<close>, and let the markers that follow it, up to any later point of the
  scan, resolve no category of their own. Then the record of that marker and the records
  of those following markers carry the category \<open>A\<close>: the output is the records of the
  markers before, then the records of this marker and the following ones, all with
  category \<open>A\<close>, then the records of the remaining markers.
\<close>

theorem category_sticky:
  assumes "parse_excel ws gen = Inr recipes"
    and "enumerate 0 (recipe_id_rows ws) = before @ (idx, rid_row) # following @ remaining"
    and "find_name ws (rows_above rid_row) = Some (rname, name_row)"
    and "find_category ws (recipe_id_rows ws) idx (rows_above name_row) = Some A"
    and "\<forall>(i, rid)\<in>set following. \<forall>n nr. find_name ws (rows_above rid) = Some (n, nr)
          \<longrightarrow> find_category ws (recipe_id_rows ws) i (rows_above nr) = None"
  shows "\<exists>old new later. recipes = old @ new @ later
           \<and> length old \<le> length before \<and> length later \<le> length remaining
           \<and> map recipe_name new =
               map (\<lambda>(i, rid). fst (the (find_name ws (rows_above rid))))
                 (filter (\<lambda>(i, rid). find_name ws (rows_above rid) \<noteq> None
                     \<and> find_ingredients_start ws (ingredients_label_rows ws rid) \<noteq> None)
                    ((idx, rid_row) # following))
           \<and> (\<forall>r\<in>set new. category r = A)"
proof -
  let ?rows = "recipe_id_rows ws"
  from assms(1,2)
  have "pass2 ws gen ?rows (before @ ((idx, rid_row) # following) @ remaining) None 0
      = Inr recipes"
    by (simp add: parse_excel_def Let_def)
  from pass2_append [OF this] obtain old rest cat k where
    split1: "recipes = old @ rest" and
    lead: "pass2 ws gen ?rows before None 0 = Inr old" and
    run1: "pass2 ws gen ?rows (((idx, rid_row) # following) @ remaining) cat k = Inr rest"
    by blast
  from pass2_append [OF run1] obtain new later cat2 k2 where
    split2: "rest = new @ later" and
    run: "pass2 ws gen ?rows ((idx, rid_row) # following) cat k = Inr new" and
    rear: "pass2 ws gen ?rows remaining cat2 k2 = Inr later"
    by blast
  from run obtain cat' ro k' tl where
    step: "marker_step ws gen ?rows idx rid_row cat k = Inr (cat', ro, k')" and
    tail: "pass2 ws gen ?rows following cat' k' = Inr tl" and
    new: "new = (case ro of None \<Rightarrow> tl | Some x \<Rightarrow> x # tl)"
    by (auto split: sum.splits prod.splits)
  from marker_step_category(1) [OF step] assms(3,4) have cat': "cat' = Some A" by simp
  from pass2_keeps_category [OF tail [unfolded cat'] assms(5)]
  have "\<forall>r\<in>set tl. category r = A" .
  moreover from marker_step_category(2) [OF step] cat'
  have "\<forall>r. ro = Some r \<longrightarrow> category r = A" by simp
  ultimately have cats: "\<forall>r\<in>set new. category r = A" using new
    by (auto split: option.splits)
  from split1 split2 have "recipes = old @ new @ later" by simp
  with pass2_length [OF lead] pass2_length [OF rear] pass2_names [OF run] cats
  show ?thesis by blast
qed

theorem category_sticky_witness:
  "\<not> isl (parse_excel two_marker_sheet sample_ids)
   \<and> enumerate 0 (recipe_id_rows two_marker_sheet) = [(0, 3), (1, 8)]
   \<and> find_category two_marker_sheet (recipe_id_rows two_marker_sheet) 0 (rows_above 2)
        = Some ''A''
   \<and> find_category two_marker_sheet (recipe_id_rows two_marker_sheet) 1 (rows_above 7) = None
   \<and> map recipe_name (projr (parse_excel two_marker_sheet sample_ids)) = [''First'', ''Second'']
   \<and> map category (projr (parse_excel two_marker_sheet sample_ids)) = [''A'', ''A'']"
proof -
  let ?out = "parse_excel two_marker_sheet sample_ids"
  have n: "\<not> isl ?out" by code_simp
  then have e: "?out = Inr (projr ?out)" by simp
  have ms: "enumerate 0 (recipe_id_rows two_marker_sheet) = [] @ (0, 3) # [(1, 8)] @ []"
    by code_simp
  have c: "find_name two_marker_sheet (rows_above 3) = Some (''First'', 2)"
    "find_category two_marker_sheet (recipe_id_rows two_marker_sheet) 0 (rows_above 2)
        = Some ''A''"
    "find_name two_marker_sheet (rows_above 8) = Some (''Second'', 7)"
    "find_category two_marker_sheet (recipe_id_rows two_marker_sheet) 1 (rows_above 7) = None"
    by code_simp+
  have i: "find_ingredients_start two_marker_sheet (ingredients_label_rows two_marker_sheet 3)
        = Some 5"
    "find_ingredients_start two_marker_sheet (ingredients_label_rows two_marker_sheet 8)
        = Some 10"
    by code_simp+
  from c have later: "\<forall>(i, rid)\<in>set [(1, 8)]. \<forall>n nr.
      find_name two_marker_sheet (rows_above rid) = Some (n, nr)
      \<longrightarrow> find_category two_marker_sheet (recipe_id_rows two_marker_sheet) i (rows_above nr)
            = None"
    by simp
  from category_sticky [OF e ms c(1) c(2) later] obtain old new later where
    split: "projr ?out = old @ new @ later"
      "length old \<le> length ([] :: (nat \<times> nat) list)"
      "length later \<le> length ([] :: (nat \<times> nat) list)" and
    names: "map recipe_name new =
               map (\<lambda>(i, rid). fst (the (find_name two_marker_sheet (rows_above rid))))
                 (filter (\<lambda>(i, rid). find_name two_marker_sheet (rows_above rid) \<noteq> None
                     \<and> find_ingredients_start two_marker_sheet
                          (ingredients_label_rows two_marker_sheet rid) \<noteq> None)
                    [(0::nat, 3), (1, 8)])" and
    cats: "\<forall>r\<in>set new. category r = ''A''"
    by (elim exE conjE) (rule that, assumption+)
  from split have out: "projr ?out = new" by simp
  from names c i have nm: "map recipe_name new = [''First'', ''Second'']" by simp
  then have "length new = 2" by (metis length_map length_Cons list.size(3) numeral_2_eq_2)
  then obtain a b where ab: "new = [a, b]"
    by (auto simp: length_Suc_conv numeral_2_eq_2)
  with cats have "map category new = [''A'', ''A'']" by simp
  with n ms c nm out show ?thesis by simp
qed




text \<open>
  C6, as amended. The serving size of a record is 100 when the per-serving weight was
  not read (the label is missing, or its value is empty or no number) or is zero, and is
  the per-serving weight read from the worksheet otherwise, also when that weight is
  negative.
\<close>

theorem serving_size_default:
  assumes "parse_recipe ws gen rname rid_row cat k = Inr (Some r, k')"
  shows "\<exists>m. parse_metadata ws (metadata_rows ws rid_row) no_metadata = Inr m
           \<and> serving_size_grams r =
               (case per_serving_weight m of
                  None \<Rightarrow> 100
                | Some w \<Rightarrow> if w = 0 then 100 else w)"
proof -
  from parse_recipe_built [OF assms] obtain m and items :: "(nat \<times> ingredient) list" and j
    where
    meta: "parse_metadata ws (metadata_rows ws rid_row) no_metadata = Inr m" and
    built: "build_recipe gen j rname cat m (map snd items) = Inr r"
    by blast
  from build_recipe_fields(4) [OF built]
  have "serving_size_grams r =
      (case per_serving_weight m of None \<Rightarrow> 100 | Some w \<Rightarrow> if w = 0 then 100 else w)"
    by (simp add: serving_size_of_def split: option.splits)
  with meta show ?thesis by blast
qed

theorem serving_size_default_witness:
  "\<not> isl (parse_recipe two_marker_sheet sample_ids ''First'' 3 (Some ''A'') 0)
   \<and> map_sum id per_serving_weight
        (parse_metadata two_marker_sheet (metadata_rows two_marker_sheet 3) no_metadata) = Inr None
   \<and> map_option serving_size_grams
        (fst (projr (parse_recipe two_marker_sheet sample_ids ''First'' 3 (Some ''A'') 0)))
       = Some 100"
proof -
  let ?out = "parse_recipe two_marker_sheet sample_ids ''First'' 3 (Some ''A'') 0"
  let ?meta = "parse_metadata two_marker_sheet (metadata_rows two_marker_sheet 3) no_metadata"
  have n: "\<not> isl ?out" "fst (projr ?out) \<noteq> None" by code_simp+
  then have e: "?out = Inr (Some (the (fst (projr ?out))), snd (projr ?out))"
    by (metis option.collapse prod.collapse sum.collapse(2))
  have m: "map_sum id per_serving_weight ?meta = Inr None" by code_simp
  from serving_size_default [OF e] m
  have "serving_size_grams (the (fst (projr ?out))) = 100" by auto
  with n m show ?thesis by (cases "fst (projr ?out)") auto
qed

text \<open>
  The claim as the specification states it fails: with a per-serving weight of \<open>-50\<close>
  the record keeps \<open>-50\<close> as its serving size, not 100.
\<close>

theorem serving_size_counterexample:
  "cell_value negative_weight_sheet 2 7 = Number (- 50)
   \<and> map_sum id per_serving_weight
        (parse_metadata negative_weight_sheet (metadata_rows negative_weight_sheet 2) no_metadata)
       = Inr (Some (- 50))
   \<and> map_sum id (map serving_size_grams) (parse_excel negative_weight_sheet sample_ids)
       = Inr [- 50]"
  by code_simp

text \<open>
  C7. For every worksheet the number of records is at most the number of marker rows; a
  worksheet with no marker row gives the empty sequence; and the two numbers are equal
  only when every marker resolves a name.
\<close>

theorem record_count_bound:
  "(parse_excel ws gen = Inr recipes \<longrightarrow> length recipes \<le> length (recipe_id_rows ws))
   \<and> ((\<forall>row. 1 \<le> row \<and> row \<le> max_row ws \<longrightarrow> \<not> is_marker ws row)
        \<longrightarrow> recipe_id_rows ws = [] \<and> parse_excel ws gen = Inr [])
   \<and> (parse_excel ws gen = Inr recipes \<and> length recipes = length (recipe_id_rows ws)
        \<longrightarrow> (\<forall>rid\<in>set (recipe_id_rows ws). find_name ws (rows_above rid) \<noteq> None))"
proof (intro conjI impI)
  assume "parse_excel ws gen = Inr recipes"
  from parse_excel_count [OF this] show "length recipes \<le> length (recipe_id_rows ws)"
    by simp
next
  assume a: "\<forall>row. 1 \<le> row \<and> row \<le> max_row ws \<longrightarrow> \<not> is_marker ws row"
  then show none: "recipe_id_rows ws = []"
    by (auto simp: recipe_id_rows_def filter_empty_conv)
  then show "parse_excel ws gen = Inr []"
    by (simp add: parse_excel_def enumerate_eq_zip)
next
  let ?P = "\<lambda>rid. find_name ws (rows_above rid) \<noteq> None
               \<and> find_ingredients_start ws (ingredients_label_rows ws rid) \<noteq> None"
  assume "parse_excel ws gen = Inr recipes \<and> length recipes = length (recipe_id_rows ws)"
  with parse_excel_count [of ws gen recipes]
  have "length (filter ?P (recipe_id_rows ws)) = length (recipe_id_rows ws)" by simp
  then have "filter ?P (recipe_id_rows ws) = recipe_id_rows ws"
    by (metis length_filter_less less_irrefl_nat filter_True)
  then have "\<forall>rid\<in>set (recipe_id_rows ws). ?P rid" by (simp add: filter_id_conv)
  then show "\<forall>rid\<in>set (recipe_id_rows ws). find_name ws (rows_above rid) \<noteq> None"
    by blast
qed

theorem record_count_bound_witness:
  "\<not> isl (parse_excel two_marker_sheet sample_ids)
   \<and> length (projr (parse_excel two_marker_sheet sample_ids)) = 2
   \<and> length (recipe_id_rows two_marker_sheet) = 2
   \<and> list_all (\<lambda>rid. find_name two_marker_sheet (rows_above rid) \<noteq> None)
        (recipe_id_rows two_marker_sheet)
   \<and> max_row unparseable_yield_sheet = 1
   \<and> \<not> is_marker unparseable_yield_sheet 1
   \<and> parse_excel unparseable_yield_sheet sample_ids = Inr []"
proof -
  let ?out = "parse_excel two_marker_sheet sample_ids"
  have n: "\<not> isl ?out" by code_simp
  then have e: "?out = Inr (projr ?out)" by simp
  have l: "length (projr ?out) = 2" "length (recipe_id_rows two_marker_sheet) = 2"
    by code_simp+
  have z: "max_row unparseable_yield_sheet = 1" "\<not> is_marker unparseable_yield_sheet 1"
    by code_simp+
  then have none: "\<forall>row. 1 \<le> row \<and> row \<le> max_row unparseable_yield_sheet
      \<longrightarrow> \<not> is_marker unparseable_yield_sheet row"
    by (auto simp: le_antisym)
  from record_count_bound [of two_marker_sheet sample_ids "projr ?out"] e l
  have 1: "list_all (\<lambda>rid. find_name two_marker_sheet (rows_above rid) \<noteq> None)
        (recipe_id_rows two_marker_sheet)"
    by (simp add: list_all_iff)
  from record_count_bound [of unparseable_yield_sheet sample_ids] none
  have 2: "parse_excel unparseable_yield_sheet sample_ids = Inr []" by blast
  from n l z 1 2 show ?thesis by simp
qed

text \<open>
  C8, as amended. During name resolution the date rule rejects a candidate value exactly
  when the value contains the two characters \<open>20\<close> next to each other, contains \<open>-\<close> or
  \<open>/\<close>, and has fewer than 25 characters; a label-only row whose value passes the
  denylist is passed over when the rule rejects it and gives the name otherwise. No
  four-digit year is asked for.
\<close>

theorem date_rule:
  "(looks_like_date val \<longleftrightarrow>
      (\<exists>u v. val = u @ ''20'' @ v) \<and> (CHR ''-'' \<in> set val \<or> CHR ''/'' \<in> set val)
      \<and> length val < 25)
   \<and> (truthy (cell_value ws r 1) \<and> \<not> truthy (cell_value ws r 2)
        \<and> val = strip (py_str (cell_value ws r 1)) \<and> \<not> not_a_name val
      \<longrightarrow> find_name ws (r # rs)
            = (if looks_like_date val then find_name ws rs else Some (val, r)))"
proof -
  have "looks_like_date val \<longleftrightarrow>
      (\<exists>u v. val = u @ ''20'' @ v) \<and> (CHR ''-'' \<in> set val \<or> CHR ''/'' \<in> set val)
      \<and> length val < 25"
    unfolding looks_like_date_def contains_iff by (simp add: in_set_conv_decomp)
  moreover have "truthy (cell_value ws r 1) \<and> \<not> truthy (cell_value ws r 2)
        \<and> val = strip (py_str (cell_value ws r 1)) \<and> \<not> not_a_name val
      \<longrightarrow> find_name ws (r # rs)
            = (if looks_like_date val then find_name ws rs else Some (val, r))"
    by (auto simp: Let_def)
  ultimately show ?thesis by blast
qed

theorem date_rule_witness:
  "looks_like_date ''2026-02-10 00:00:00''
   \<and> \<not> looks_like_date ''Lentil Soup''
   \<and> find_name soup_sheet [3, 2, 1] = Some (''Lentil Soup'', 3)"
proof -
  have a: "\<exists>u v. ''2026-02-10 00:00:00'' = u @ ''20'' @ v"
    by (rule exI [of _ "[]"], rule exI [of _ "''26-02-10 00:00:00''"]) simp
  have c: "truthy (cell_value soup_sheet 3 1)" "\<not> truthy (cell_value soup_sheet 3 2)"
    "strip (py_str (cell_value soup_sheet 3 1)) = ''Lentil Soup''"
    "\<not> not_a_name ''Lentil Soup''"
    by code_simp+
  have d: "CHR ''-'' \<notin> set ''Lentil Soup''" "CHR ''/'' \<notin> set ''Lentil Soup''" by simp_all
  from date_rule [of "''2026-02-10 00:00:00''" ws r rs] a
  have 1: "looks_like_date ''2026-02-10 00:00:00''" by simp
  from date_rule [of "''Lentil Soup''" soup_sheet 3 "[2, 1]"] c d
  have "\<not> looks_like_date ''Lentil Soup''"
    and "find_name soup_sheet [3, 2, 1] = Some (''Lentil Soup'', 3)"
    by simp_all
  with 1 show ?thesis by simp
qed

text \<open>
  The claim as the specification states it fails: \<open>Top-20 Salad\<close> holds no four-digit
  year, and the date rule rejects it, so that the marker under it finds no name.
\<close>

theorem date_rule_counterexample:
  "\<not> spec_four_digit_year ''Top-20 Salad''
   \<and> looks_like_date ''Top-20 Salad''
   \<and> cell_value top20_sheet 1 1 = Text ''Top-20 Salad''
   \<and> find_name top20_sheet (rows_above 2) = None"
  by code_simp

text \<open>
  C9. Two runs of the extractor on the same worksheet, whatever identifiers the clock and
  the random generator give to each, end the same way and, where they return, return
  the same sequence of records once the record identifier and the entity identifier of
  each ingredient are left out of the comparison.
\<close>

theorem runs_agree_up_to_ids:
  "blank_output (parse_excel ws gen1) = blank_output (parse_excel ws gen2)"
  by (simp add: parse_excel_def Let_def pass2_ids_only [of ws gen1 _ _ _ 0 gen2 0])

theorem runs_agree_up_to_ids_witness:
  "blank_output (parse_excel soup_sheet sample_ids)
     = blank_output (parse_excel soup_sheet other_ids)
   \<and> map recipe_id (projr (parse_excel soup_sheet sample_ids))
       = [''recipe_1770000000002_abcdefghi'']
   \<and> map recipe_id (projr (parse_excel soup_sheet other_ids))
       = [''recipe_1770000099014_zyxwvutsr'']"
proof -
  have "map recipe_id (projr (parse_excel soup_sheet sample_ids))
       = [''recipe_1770000000002_abcdefghi'']"
    "map recipe_id (projr (parse_excel soup_sheet other_ids))
       = [''recipe_1770000099014_zyxwvutsr'']"
    by code_simp+
  with runs_agree_up_to_ids [of soup_sheet sample_ids other_ids] show ?thesis by simp
qed

text \<open>
  C10. In every line item of every record that \<^verbatim>\<open>parse_excel\<close> returns, the fields
  \<open>quantity\<close>, \<open>quantity_in_grams\<close> and \<open>yield_quantity_in_grams\<close> hold the same value.
\<close>

theorem quantity_fields_agree:
  assumes "parse_excel ws gen = Inr recipes"
  shows "\<forall>r\<in>set recipes. \<forall>ing\<in>set (ingredients r).
           quantity ing = quantity_in_grams ing
           \<and> quantity_in_grams ing = yield_quantity_in_grams ing"
proof (intro ballI)
  fix r ing
  assume r: "r \<in> set recipes" and ing: "ing \<in> set (ingredients r)"
  from assms have "pass2 ws gen (recipe_id_rows ws) (enumerate 0 (recipe_id_rows ws)) None 0
      = Inr recipes"
    by (simp add: parse_excel_def Let_def)
  from pass2_recipe [OF this r] obtain rname rid_row c j j' where
    "parse_recipe ws gen rname rid_row c j = Inr (Some r, j')" by blast
  from parse_recipe_ingredient [OF this ing] obtain row i where
    "parse_ingredient_row ws gen row i = Inr ing" by blast
  from qty_fields [OF this]
  show "quantity ing = quantity_in_grams ing
        \<and> quantity_in_grams ing = yield_quantity_in_grams ing" by simp
qed

theorem quantity_fields_agree_witness:
  "\<not> isl (parse_excel soup_sheet sample_ids)
   \<and> map (length \<circ> ingredients) (projr (parse_excel soup_sheet sample_ids)) = [2]
   \<and> list_all (\<lambda>r. list_all (\<lambda>ing. quantity ing = quantity_in_grams ing
                                    \<and> quantity_in_grams ing = yield_quantity_in_grams ing)
                         (ingredients r))
        (projr (parse_excel soup_sheet sample_ids))"
proof -
  let ?out = "parse_excel soup_sheet sample_ids"
  have n: "\<not> isl ?out" by code_simp
  then have e: "?out = Inr (projr ?out)" by simp
  have l: "map (length \<circ> ingredients) (projr ?out) = [2]" by code_simp
  from quantity_fields_agree [OF e] n l show ?thesis
    by (simp add: list_all_iff)
qed

end
